theory Spec2Isabelle
  imports Main
begin

section \<open>Python strings\<close>

text \<open>
  A Python \<open>str\<close> is a sequence of Unicode code points, so it is modelled as a list of
  natural numbers: slicing (\<open>s[1:]\<close>, \<open>s[:80]\<close>) and \<open>len\<close> count code points, as
  \<open>drop\<close>, \<open>take\<close> and \<open>length\<close> do here. ASCII literals of the source are written
  \<open>u ''...''\<close>; the emoji of the source are given by their code points.
\<close>

type_synonym pystr = "nat list"

definition u :: "string \<Rightarrow> pystr" where
  "u s = map of_char s"

definition NL :: pystr where
  "NL = [10]"

text \<open>\<open>s.startswith(p)\<close>.\<close>

definition startswith :: "pystr \<Rightarrow> pystr \<Rightarrow> bool" where
  "startswith s p = (take (length p) s = p)"

text \<open>\<open>sub in s\<close> for strings: \<open>sub\<close> occurs in \<open>s\<close> as a contiguous slice.\<close>

fun contains :: "pystr \<Rightarrow> pystr \<Rightarrow> bool" where
  "contains [] sub = (sub = [])"
| "contains (c # cs) sub = (startswith (c # cs) sub \<or> contains cs sub)"

text \<open>\<open>sep.join(xs)\<close>.\<close>

fun join :: "pystr \<Rightarrow> pystr list \<Rightarrow> pystr" where
  "join sep [] = []"
| "join sep [x] = x"
| "join sep (x # y # ys) = x @ sep @ join sep (y # ys)"

text \<open>
  \<open>str.splitlines()\<close>: the line boundaries are \<open>\n\<close>, \<open>\r\<close>, \<open>\r\n\<close>, \<open>\v\<close>, \<open>\f\<close>,
  \<open>\x1c\<close>, \<open>\x1d\<close>, \<open>\x1e\<close>, \<open>\x85\<close>, U+2028 and U+2029; the boundaries are not kept
  and a trailing boundary opens no empty last line.
\<close>

definition is_linebreak :: "nat \<Rightarrow> bool" where
  "is_linebreak c = (c \<in> set [10, 11, 12, 13, 28, 29, 30, 133, 8232, 8233])"

fun splitlines_from :: "pystr \<Rightarrow> pystr \<Rightarrow> pystr list" where
  "splitlines_from cur [] = (if cur = [] then [] else [cur])"
| "splitlines_from cur [c] =
     (if is_linebreak c then [cur] else [cur @ [c]])"
| "splitlines_from cur (c # d # ds) =
     (if c = 13 \<and> d = 10 then cur # splitlines_from [] ds
      else if is_linebreak c then cur # splitlines_from [] (d # ds)
      else splitlines_from (cur @ [c]) (d # ds))"

definition splitlines :: "pystr \<Rightarrow> pystr list" where
  "splitlines s = splitlines_from [] s"

text \<open>
  \<open>str(n)\<close> for an integer: decimal digits, with a leading minus sign for a negative one.
\<close>

fun str_nat :: "nat \<Rightarrow> pystr" where
  "str_nat n = (if n < 10 then [48 + n] else str_nat (n div 10) @ [48 + n mod 10])"

declare str_nat.simps [simp del]

definition str_int :: "int \<Rightarrow> pystr" where
  "str_int i = (if i < 0 then 45 # str_nat (nat (- i)) else str_nat (nat i))"

text \<open>
  \<open>str.lower()\<close>. The ASCII capitals go to their small letters. Outside ASCII Python
  applies the Unicode lower-case mapping, which is left out: the only use of \<open>lower\<close> in the
  code is the search for \<open>test\<close> and \<open>spec\<close>, and no code point outside ASCII has a
  lower-case form that holds one of the letters of these two words.
\<close>

definition lower_char :: "nat \<Rightarrow> nat" where
  "lower_char c = (if 65 \<le> c \<and> c \<le> 90 then c + 32 else c)"

definition lower :: "pystr \<Rightarrow> pystr" where
  "lower s = map lower_char s"

section \<open>The diff parser\<close>

text \<open>The emoji of the messages: U+26A0 U+FE0F (warning sign) and U+274C (cross mark).\<close>

definition WARN_ICON :: pystr where
  "WARN_ICON = [9888, 65039]"

definition ERROR_ICON :: pystr where
  "ERROR_ICON = [10060]"

definition EXCLUDED_PATHS :: "pystr list" where
  "EXCLUDED_PATHS = [u ''robodev/'', u ''.github/'', u ''AGENTS.md'']"

text \<open>\<open>any(path.startswith(ex) for ex in _EXCLUDED_PATHS)\<close>.\<close>

definition is_excluded :: "pystr \<Rightarrow> bool" where
  "is_excluded path = list_ex (\<lambda>ex. startswith path ex) EXCLUDED_PATHS"

text \<open>
  The loop of \<open>_parse_added_lines\<close> keeps two variables, \<open>current_file\<close> (a string or
  \<open>None\<close>) and \<open>results\<close>. One iteration is \<open>parse_step\<close>; the test \<open>if current_file\<close>
  is Python truthiness, false for \<open>None\<close> and for the empty string.
\<close>

type_synonym added_line = "pystr \<times> pystr"

type_synonym parse_state = "pystr option \<times> added_line list"

definition parse_step :: "parse_state \<Rightarrow> pystr \<Rightarrow> parse_state" where
  "parse_step st raw_line =
     (case st of (current_file, results) \<Rightarrow>
        if startswith raw_line (u ''+++ b/'') then
          (let path = drop 6 raw_line in
           if is_excluded path then (None, results) else (Some path, results))
        else
          (case current_file of
             None \<Rightarrow> (current_file, results)
           | Some cf \<Rightarrow>
               if cf \<noteq> [] \<and> startswith raw_line (u ''+'') \<and> \<not> startswith raw_line (u ''+++'')
               then (current_file, results @ [(cf, drop 1 raw_line)])
               else (current_file, results)))"

definition parse_lines :: "parse_state \<Rightarrow> pystr list \<Rightarrow> parse_state" where
  "parse_lines st ls = foldl parse_step st ls"

definition parse_added_lines :: "pystr \<Rightarrow> added_line list" where
  "parse_added_lines diff = snd (parse_lines (None, []) (splitlines diff))"

text \<open>
  The invariant of the loop with respect to the excluded prefixes: the cursor, when set,
  and the path of every result are not excluded.
\<close>

definition cursor_ok :: "parse_state \<Rightarrow> bool" where
  "cursor_ok st =
     ((case fst st of None \<Rightarrow> True | Some p \<Rightarrow> \<not> is_excluded p)
      \<and> (\<forall>e\<in>set (snd st). \<not> is_excluded (fst e)))"

section \<open>The detectors\<close>

text \<open>
  An entry of the file list of the pull request, as the hosting platform returns it: the
  keys \<open>filename\<close> and \<open>status\<close> are always there, \<open>changes\<close> is read with
  \<open>f.get("changes", 0)\<close> and may be absent.
\<close>

record changed_file =
  filename :: pystr
  status :: pystr
  changes :: "int option"

definition get_changes :: "changed_file \<Rightarrow> int" where
  "get_changes f = (case changes f of None \<Rightarrow> 0 | Some c \<Rightarrow> c)"

definition file_size_issue :: "pystr \<Rightarrow> int \<Rightarrow> int \<Rightarrow> pystr" where
  "file_size_issue name n max_changed =
     u ''- '' @ WARN_ICON @ u '' `'' @ name @ u ''` has **'' @ str_int n
     @ u ''** changed lines (threshold: '' @ str_int max_changed
     @ u ''). Consider splitting this change.''"

fun check_file_size :: "changed_file list \<Rightarrow> int \<Rightarrow> pystr list" where
  "check_file_size [] max_changed = []"
| "check_file_size (f # fs) max_changed =
     (if get_changes f > max_changed
      then file_size_issue (filename f) (get_changes f) max_changed # check_file_size fs max_changed
      else check_file_size fs max_changed)"

definition large_pr_issue :: "nat \<Rightarrow> int \<Rightarrow> pystr" where
  "large_pr_issue n max_files =
     u ''- '' @ WARN_ICON @ u '' This PR modifies **'' @ str_int (int n)
     @ u '' files** (recommended max: '' @ str_int max_files
     @ u ''). Large PRs are harder to review.''"

definition check_large_pr :: "changed_file list \<Rightarrow> int \<Rightarrow> pystr list" where
  "check_large_pr files max_files =
     (if int (length files) > max_files then [large_pr_issue (length files) max_files] else [])"

subsection \<open>Banned patterns\<close>

text \<open>
  Python's \<open>re\<close> module is not part of the repository, so the regular-expression engine
  is a parameter of the model: \<open>re pattern\<close> is \<open>None\<close> when \<open>re.finditer(pattern, text)\<close>
  raises \<open>re.error\<close> (the pattern does not compile; the call compiles it before any
  match is produced), and otherwise \<open>Some m\<close>, where \<open>m text\<close> lists \<open>match.group()\<close> for
  the non-overlapping matches that \<open>re.finditer\<close> yields on \<open>text\<close>, from left to right.
\<close>

type_synonym regex_engine = "pystr \<Rightarrow> (pystr \<Rightarrow> pystr list) option"

datatype exn = ReError pystr

text \<open>
  An entry of \<open>banned_patterns\<close>; every key is read with \<open>entry.get\<close> and has a default.
\<close>

record pattern_entry =
  regex :: "pystr option"
  label :: "pystr option"
  severity :: "pystr option"

definition get_regex :: "pattern_entry \<Rightarrow> pystr" where
  "get_regex entry = (case regex entry of None \<Rightarrow> [] | Some r \<Rightarrow> r)"

definition get_label :: "pattern_entry \<Rightarrow> pystr" where
  "get_label entry = (case label entry of None \<Rightarrow> get_regex entry | Some l \<Rightarrow> l)"

definition get_severity :: "pattern_entry \<Rightarrow> pystr" where
  "get_severity entry = (case severity entry of None \<Rightarrow> u ''warning'' | Some s \<Rightarrow> s)"

definition icon_of :: "pattern_entry \<Rightarrow> pystr" where
  "icon_of entry = (if get_severity entry = u ''error'' then ERROR_ICON else WARN_ICON)"

definition banned_issue :: "pattern_entry \<Rightarrow> pystr \<Rightarrow> pystr" where
  "banned_issue entry matched =
     u ''- '' @ icon_of entry @ u '' **'' @ get_label entry
     @ u ''** detected in diff near: `'' @ take 80 matched @ u ''`''"

text \<open>
  The loop over the patterns, with \<open>issues\<close> as its variable; the first pattern that does
  not compile raises, and the exception leaves the function.
\<close>

fun scan_patterns :: "regex_engine \<Rightarrow> pystr \<Rightarrow> pattern_entry list \<Rightarrow> pystr list
    \<Rightarrow> exn + pystr list" where
  "scan_patterns re added_text [] issues = Inr issues"
| "scan_patterns re added_text (entry # entries) issues =
     (case re (get_regex entry) of
        None \<Rightarrow> Inl (ReError (get_regex entry))
      | Some m \<Rightarrow>
          scan_patterns re added_text entries
            (issues @ map (banned_issue entry) (m added_text)))"

definition check_banned_patterns :: "regex_engine \<Rightarrow> pystr \<Rightarrow> pattern_entry list
    \<Rightarrow> exn + pystr list" where
  "check_banned_patterns re diff patterns =
     (let added_lines = parse_added_lines diff in
      if added_lines = [] then Inr []
      else scan_patterns re (join NL (map snd added_lines)) patterns [])"

subsection \<open>Test coverage\<close>

text \<open>
  \<open>PurePosixPath(name).suffix\<close>. The name of a path is its last component, where the
  components are the pieces between slashes that are neither empty nor \<open>.\<close>; the suffix
  of a name is its slice from the last dot, when that dot is neither the first nor the last
  character, and empty otherwise.
\<close>

fun split_slash :: "pystr \<Rightarrow> pystr list" where
  "split_slash [] = [[]]"
| "split_slash (c # cs) =
     (if c = 47 then [] # split_slash cs
      else (case split_slash cs of [] \<Rightarrow> [[c]] | x # xs \<Rightarrow> (c # x) # xs))"

definition path_name :: "pystr \<Rightarrow> pystr" where
  "path_name p =
     (let parts = filter (\<lambda>x. x \<noteq> [] \<and> x \<noteq> u ''.'') (split_slash p)
      in if parts = [] then [] else last parts)"

definition rfind_dot :: "pystr \<Rightarrow> nat option" where
  "rfind_dot s =
     (let idxs = filter (\<lambda>i. s ! i = 46) [0..<length s]
      in if idxs = [] then None else Some (last idxs))"

definition path_suffix :: "pystr \<Rightarrow> pystr" where
  "path_suffix p =
     (let name = path_name p in
      case rfind_dot name of
        None \<Rightarrow> []
      | Some i \<Rightarrow> if 0 < i \<and> i + 1 < length name then drop i name else [])"

definition SOURCE_SUFFIXES :: "pystr list" where
  "SOURCE_SUFFIXES = [u ''.py'', u ''.js'', u ''.ts'', u ''.jsx'', u ''.tsx'']"

definition is_test_name :: "pystr \<Rightarrow> bool" where
  "is_test_name name = (contains (lower name) (u ''test'') \<or> contains (lower name) (u ''spec''))"

definition has_source_suffix :: "pystr \<Rightarrow> bool" where
  "has_source_suffix name = (path_suffix name \<in> set SOURCE_SUFFIXES)"

definition is_changed :: "changed_file \<Rightarrow> bool" where
  "is_changed f = (status f \<in> set [u ''added'', u ''modified''])"

text \<open>
  One iteration of the loop of \<open>_check_test_coverage\<close> over the variables
  \<open>(src_changed, test_found)\<close>.
\<close>

definition coverage_step :: "bool \<times> bool \<Rightarrow> changed_file \<Rightarrow> bool \<times> bool" where
  "coverage_step st f =
     (case st of (src_changed, test_found) \<Rightarrow>
        if is_excluded (filename f) then (src_changed, test_found)
        else if is_changed f then
          (if is_test_name (filename f) then (src_changed, True)
           else if has_source_suffix (filename f) then (True, test_found)
           else (src_changed, test_found))
        else (src_changed, test_found))"

definition no_tests_issue :: pystr where
  "no_tests_issue =
     u ''- '' @ WARN_ICON @ u '' Source files were changed but **no test files** were ''
     @ u ''added or modified. Please add tests for new functionality.''"

definition check_test_coverage :: "changed_file list \<Rightarrow> bool \<Rightarrow> pystr list" where
  "check_test_coverage files require_tests =
     (if \<not> require_tests then []
      else (case foldl coverage_step (False, False) files of
              (src_changed, test_found) \<Rightarrow>
                if src_changed \<and> \<not> test_found then [no_tests_issue] else []))"

text \<open>
  For comparison: the test-coverage detector as it would be with no exclusion test of its
  own, run on the full file list. It is the loop of the source without its first test.
\<close>

definition coverage_step_unfiltered :: "bool \<times> bool \<Rightarrow> changed_file \<Rightarrow> bool \<times> bool" where
  "coverage_step_unfiltered st f =
     (case st of (src_changed, test_found) \<Rightarrow>
        if is_changed f then
          (if is_test_name (filename f) then (src_changed, True)
           else if has_source_suffix (filename f) then (True, test_found)
           else (src_changed, test_found))
        else (src_changed, test_found))"

definition check_test_coverage_unfiltered :: "changed_file list \<Rightarrow> bool \<Rightarrow> pystr list" where
  "check_test_coverage_unfiltered files require_tests =
     (if \<not> require_tests then []
      else (case foldl coverage_step_unfiltered (False, False) files of
              (src_changed, test_found) \<Rightarrow>
                if src_changed \<and> \<not> test_found then [no_tests_issue] else []))"

section \<open>The verdict\<close>

text \<open>
  What \<open>run\<close> reads from the \<open>code_review\<close> section of the configuration, each key with
  \<open>review_cfg.get\<close> and a default.
\<close>

record review_cfg =
  max_changed_lines_per_file :: "int option"
  max_files_per_pr :: "int option"
  banned_patterns :: "pattern_entry list option"
  require_tests :: "bool option"

definition get_max_changed :: "review_cfg \<Rightarrow> int" where
  "get_max_changed c = (case max_changed_lines_per_file c of None \<Rightarrow> 500 | Some n \<Rightarrow> n)"

definition get_max_files :: "review_cfg \<Rightarrow> int" where
  "get_max_files c = (case max_files_per_pr c of None \<Rightarrow> 20 | Some n \<Rightarrow> n)"

definition get_banned :: "review_cfg \<Rightarrow> pattern_entry list" where
  "get_banned c = (case banned_patterns c of None \<Rightarrow> [] | Some ps \<Rightarrow> ps)"

definition get_require_tests :: "review_cfg \<Rightarrow> bool" where
  "get_require_tests c = (case require_tests c of None \<Rightarrow> True | Some b \<Rightarrow> b)"

text \<open>
  The rule-based part of \<open>run\<close>: the four detectors in the order of the source, their
  issues appended to one list. An exception of the banned-pattern detector leaves \<open>run\<close>.
\<close>

definition rule_issues :: "regex_engine \<Rightarrow> review_cfg \<Rightarrow> changed_file list \<Rightarrow> pystr
    \<Rightarrow> exn + pystr list" where
  "rule_issues re c files diff =
     (case check_banned_patterns re diff (get_banned c) of
        Inl e \<Rightarrow> Inl e
      | Inr banned \<Rightarrow>
          Inr (check_file_size files (get_max_changed c)
               @ check_large_pr files (get_max_files c)
               @ banned
               @ check_test_coverage files (get_require_tests c)))"

text \<open>\<open>any("\<dots>" in i for i in issues)\<close>, the string searched for being the cross mark.\<close>

definition has_errors :: "pystr list \<Rightarrow> bool" where
  "has_errors issues = list_ex (\<lambda>i. contains i ERROR_ICON) issues"

datatype event = REQUEST_CHANGES | COMMENT

record review =
  review_event :: event
  review_body :: pystr
  exit_code :: int

text \<open>\<open>if ai_summary\<close>: false for \<open>None\<close> and for the empty string.\<close>

definition truthy :: "pystr option \<Rightarrow> bool" where
  "truthy x = (case x of None \<Rightarrow> False | Some s \<Rightarrow> s \<noteq> [])"

definition body_lines :: "pystr list \<Rightarrow> pystr option \<Rightarrow> pystr list" where
  "body_lines issues ai_summary =
     [u ''## '' @ [129302] @ u '' RoboDev Code Review'' @ NL]
     @ (if issues \<noteq> [] then [u ''### Rule-Based Findings'' @ NL] @ issues @ [[]] else [])
     @ (case ai_summary of
          None \<Rightarrow> []
        | Some a \<Rightarrow> if a \<noteq> [] then [u ''### AI-Powered Review'' @ NL, a, []] else [])
     @ (if issues = [] \<and> \<not> truthy ai_summary
        then [[9989] @ u '' No issues detected '' @ [8212] @ u '' looking good!'' @ NL]
        else [])
     @ (if has_errors issues
        then [NL @ u ''> '' @ [128683] @ u '' **Requesting changes** '' @ [8212]
              @ u '' please address the errors above.'']
        else [NL @ u ''> '' @ [8505, 65039]
              @ u '' Review complete. A human reviewer should still approve this PR.''])"

text \<open>
  The verdict of \<open>run\<close>: the event and the body handed to \<open>create_review\<close>, and the
  value returned, which \<open>sys.exit\<close> makes the exit code of the process.
\<close>

definition verdict :: "pystr list \<Rightarrow> pystr option \<Rightarrow> review" where
  "verdict issues ai_summary =
     \<lparr> review_event = (if has_errors issues then REQUEST_CHANGES else COMMENT),
       review_body = join NL (body_lines issues ai_summary),
       exit_code = (if has_errors issues then 1 else 0) \<rparr>"

text \<open>
  \<open>run\<close>, with what it fetches as arguments: the configuration, the file list, the diff
  and the value of \<open>ai_summary\<close> after the optional call of the external reviewer.
\<close>

definition run :: "regex_engine \<Rightarrow> review_cfg \<Rightarrow> changed_file list \<Rightarrow> pystr \<Rightarrow> pystr option
    \<Rightarrow> exn + review" where
  "run re c files diff ai_summary =
     (case rule_issues re c files diff of
        Inl e \<Rightarrow> Inl e
      | Inr issues \<Rightarrow> Inr (verdict issues ai_summary))"

section \<open>A regular-expression engine for the examples\<close>

text \<open>
  The theorems below hold for every engine. The examples need one: \<open>literal_engine\<close> is
  Python's \<open>re\<close> on the patterns made of ordinary characters and backslash-escaped
  metacharacters, whose matches are the occurrences of the escaped text, found from left
  to right without overlap (the empty pattern matches once at every position). It rejects
  every other pattern; Python rejects some of these as well, among them the lone \<open>(\<close>
  of the examples (\<open>missing ), unterminated subpattern\<close>), and no example uses the rest.
\<close>

definition META :: "nat list" where
  "META = [46, 94, 36, 42, 43, 63, 123, 125, 91, 93, 92, 124, 40, 41]"

fun literal_of :: "pystr \<Rightarrow> pystr option" where
  "literal_of [] = Some []"
| "literal_of [c] = (if c \<in> set META then None else Some [c])"
| "literal_of (c # d # ds) =
     (if c = 92 then (if d \<in> set META then map_option ((#) d) (literal_of ds) else None)
      else if c \<in> set META then None
      else map_option ((#) c) (literal_of (d # ds)))"

function find_all :: "pystr \<Rightarrow> pystr \<Rightarrow> pystr list" where
  "find_all p t =
     (if p = [] then replicate (Suc (length t)) []
      else if t = [] then []
      else if startswith t p then p # find_all p (drop (length p) t)
      else find_all p (tl t))"
  by pat_completeness auto
termination
  by (relation "measure (\<lambda>(p, t). length t)") auto

declare find_all.simps [simp del]

definition literal_engine :: regex_engine where
  "literal_engine pattern = map_option find_all (literal_of pattern)"

text \<open>
  The pattern of the spec's example: the regex \<open>eval\(\<close>, six characters of which the
  fifth is the backslash, with the label \<open>eval-usage\<close> and the severity \<open>error\<close>.
\<close>

definition EVAL_REGEX :: pystr where
  "EVAL_REGEX = u ''eval'' @ [92, 40]"

definition eval_entry :: pattern_entry where
  "eval_entry =
     \<lparr> regex = Some EVAL_REGEX, label = Some (u ''eval-usage''), severity = Some (u ''error'') \<rparr>"

text \<open>
  Two runs used as examples. In the first the configuration bans \<open>eval\(\<close> as an error,
  the diff adds the line \<open>eval(userInput)\<close> to \<open>app.js\<close>, and the file list holds one
  modified source file of 501 changed lines. In the second the configuration bans the
  cross mark itself, as a warning, and the diff adds a line that holds one to \<open>app.py\<close>.
\<close>

definition eval_cfg :: review_cfg where
  "eval_cfg =
     \<lparr> max_changed_lines_per_file = None, max_files_per_pr = None,
       banned_patterns = Some [eval_entry], require_tests = None \<rparr>"

definition eval_files :: "changed_file list" where
  "eval_files = [\<lparr> filename = u ''src/app.py'', status = u ''modified'', changes = Some 501 \<rparr>]"

definition eval_diff :: pystr where
  "eval_diff = u ''+++ b/app.js'' @ NL @ u ''+eval(userInput)''"

definition emoji_entry :: pattern_entry where
  "emoji_entry =
     \<lparr> regex = Some ERROR_ICON, label = Some (u ''emoji''), severity = Some (u ''warning'') \<rparr>"

definition emoji_cfg :: review_cfg where
  "emoji_cfg =
     \<lparr> max_changed_lines_per_file = None, max_files_per_pr = None,
       banned_patterns = Some [emoji_entry], require_tests = None \<rparr>"

definition emoji_diff :: pystr where
  "emoji_diff = u ''+++ b/app.py'' @ NL @ u ''+status = '' @ ERROR_ICON"

section \<open>Properties of the diff parser\<close>

lemmas eval_defs = u_def NL_def startswith_def splitlines_def is_linebreak_def parse_step_def
  parse_lines_def is_excluded_def EXCLUDED_PATHS_def

lemma startswith_append: "startswith (p @ s) p"
  by (simp add: startswith_def)

lemma startswith_contains:
  assumes "startswith s sub"
  shows "contains s sub"
  using assms by (cases s) (auto simp: startswith_def)

lemma contains_append: "contains (a @ sub @ c) sub"
proof (induction a)
  case Nil
  show ?case
    by (simp add: startswith_contains startswith_append)
next
  case (Cons x a)
  then show ?case by simp
qed

lemma parse_step_header:
  "parse_step (cf, rs) (u ''+++ b/'' @ path) =
     (if is_excluded path then (None, rs) else (Some path, rs))"
proof -
  have "length (u ''+++ b/'') = 6" by (simp add: u_def)
  then show ?thesis by (simp add: parse_step_def startswith_append)
qed

lemma parse_lines_Nil: "parse_lines st [] = st"
  by (simp add: parse_lines_def)

lemma parse_lines_Cons: "parse_lines st (l # ls) = parse_lines (parse_step st l) ls"
  by (simp add: parse_lines_def)

lemma parse_lines_append: "parse_lines st (xs @ ys) = parse_lines (parse_lines st xs) ys"
  by (simp add: parse_lines_def)

lemma parse_step_falsy:
  assumes "\<not> startswith l (u ''+++ b/'')" and "cf = None \<or> cf = Some []"
  shows "parse_step (cf, rs) l = (cf, rs)"
  using assms by (auto simp: parse_step_def)

lemma parse_lines_falsy:
  assumes "\<forall>l\<in>set body. \<not> startswith l (u ''+++ b/'')" and "cf = None \<or> cf = Some []"
  shows "parse_lines (cf, rs) body = (cf, rs)"
  using assms by (induction body) (auto simp: parse_step_falsy parse_lines_Nil parse_lines_Cons)

lemma is_excluded_Nil: "\<not> is_excluded []"
  by (simp add: is_excluded_def EXCLUDED_PATHS_def startswith_def u_def)

lemma after_header:
  assumes "splitlines diff = pre @ hdr # body @ rest"
    and "parse_lines (None, []) pre = (cf, rs)"
    and "parse_step (cf, rs) hdr = (cf', rs)"
    and "parse_lines (cf', rs) body = (cf', rs)"
  shows "parse_lines (None, []) (pre @ hdr # body) = (cf', rs)
       \<and> parse_added_lines diff = snd (parse_lines (cf', rs) rest)"
proof -
  have upto: "parse_lines (None, []) (pre @ hdr # body) = (cf', rs)"
    by (simp add: parse_lines_append parse_lines_Cons assms(2,3,4))
  have split: "pre @ hdr # body @ rest = (pre @ hdr # body) @ rest"
    by simp
  have "parse_lines (None, []) (splitlines diff) = parse_lines (cf', rs) rest"
    unfolding assms(1) split parse_lines_append [of _ "pre @ hdr # body"] upto ..
  then show ?thesis
    using upto by (simp add: parse_added_lines_def)
qed

text \<open>
  C7. Once a header \<open>+++ b/<path>\<close> with an excluded path is read, the lines up to the next
  header add nothing to the results, however many they are: after them the results are
  those reached before the header and the cursor is unset, and the parse of the whole diff
  goes on from there.
\<close>

theorem excluded_header_drops_added_lines:
  assumes "splitlines diff = pre @ (u ''+++ b/'' @ path) # body @ rest"
    and "is_excluded path"
    and "\<forall>l\<in>set body. \<not> startswith l (u ''+++ b/'')"
  shows "parse_lines (None, []) (pre @ (u ''+++ b/'' @ path) # body)
           = (None, snd (parse_lines (None, []) pre))
       \<and> parse_added_lines diff
           = snd (parse_lines (None, snd (parse_lines (None, []) pre)) rest)"
proof -
  obtain cf rs where pre: "parse_lines (None, []) pre = (cf, rs)"
    by (cases "parse_lines (None, []) pre")
  have hdr: "parse_step (cf, rs) (u ''+++ b/'' @ path) = (None, rs)"
    using assms(2) by (simp add: parse_step_header)
  have body: "parse_lines (None, rs) body = (None, rs)"
    using assms(3) by (simp add: parse_lines_falsy)
  show ?thesis
    using after_header [OF assms(1) pre hdr body] pre by simp
qed

theorem excluded_header_drops_added_lines_witness:
  "is_excluded (u ''robodev/x.py'')
   \<and> parse_lines (None, []) ([] @ (u ''+++ b/'' @ u ''robodev/x.py'') # [u ''+a = 1'', u ''+b = 2''])
       = (None, [])
   \<and> parse_added_lines (u ''+++ b/robodev/x.py'' @ NL @ u ''+a = 1'' @ NL @ u ''+b = 2'' @ NL
        @ u ''+++ b/src/y.py'' @ NL @ u ''+c = 3'')
       = [(u ''src/y.py'', u ''c = 3'')]"
proof -
  have h1: "splitlines (u ''+++ b/robodev/x.py'' @ NL @ u ''+a = 1'' @ NL @ u ''+b = 2'' @ NL
        @ u ''+++ b/src/y.py'' @ NL @ u ''+c = 3'')
      = [] @ (u ''+++ b/'' @ u ''robodev/x.py'') # [u ''+a = 1'', u ''+b = 2'']
        @ [u ''+++ b/src/y.py'', u ''+c = 3'']"
    by (simp add: eval_defs)
  have h2: "is_excluded (u ''robodev/x.py'')"
    by (simp add: eval_defs)
  have h3: "\<forall>l\<in>set [u ''+a = 1'', u ''+b = 2'']. \<not> startswith l (u ''+++ b/'')"
    by (simp add: eval_defs)
  have r: "snd (parse_lines (None, []) [u ''+++ b/src/y.py'', u ''+c = 3''])
      = [(u ''src/y.py'', u ''c = 3'')]"
    by (simp add: eval_defs)
  show ?thesis
    using excluded_header_drops_added_lines [OF h1 h2 h3] h2
    by (simp add: parse_lines_Nil r)
qed

text \<open>
  C9. The header \<open>+++ b/\<close> with an empty path is not excluded, and it sets the cursor to
  the empty string, which the test \<open>if current_file\<close> takes for false as it does \<open>None\<close>:
  the lines up to the next header add nothing to the results.
\<close>

theorem empty_path_header_drops_added_lines:
  assumes "splitlines diff = pre @ u ''+++ b/'' # body @ rest"
    and "\<forall>l\<in>set body. \<not> startswith l (u ''+++ b/'')"
  shows "\<not> is_excluded []
       \<and> parse_lines (None, []) (pre @ u ''+++ b/'' # body)
           = (Some [], snd (parse_lines (None, []) pre))
       \<and> \<not> truthy (fst (parse_lines (None, []) (pre @ u ''+++ b/'' # body)))
       \<and> parse_added_lines diff
           = snd (parse_lines (Some [], snd (parse_lines (None, []) pre)) rest)"
proof -
  obtain cf rs where pre: "parse_lines (None, []) pre = (cf, rs)"
    by (cases "parse_lines (None, []) pre")
  have "parse_step (cf, rs) (u ''+++ b/'' @ []) = (Some [], rs)"
    unfolding parse_step_header by (simp add: is_excluded_Nil)
  then have hdr: "parse_step (cf, rs) (u ''+++ b/'') = (Some [], rs)"
    by simp
  have body: "parse_lines (Some [], rs) body = (Some [], rs)"
    using assms(2) by (simp add: parse_lines_falsy)
  show ?thesis
    using after_header [OF assms(1) pre hdr body] pre
    by (simp add: is_excluded_Nil truthy_def)
qed

theorem empty_path_header_drops_added_lines_witness:
  "parse_lines (None, []) ([u ''+++ b/src/y.py'', u ''+c = 3''] @ u ''+++ b/'' # [u ''+a = 1'', u ''+b = 2''])
       = (Some [], [(u ''src/y.py'', u ''c = 3'')])
   \<and> parse_added_lines (u ''+++ b/src/y.py'' @ NL @ u ''+c = 3'' @ NL @ u ''+++ b/'' @ NL
        @ u ''+a = 1'' @ NL @ u ''+b = 2'')
       = [(u ''src/y.py'', u ''c = 3'')]"
proof -
  have h1: "splitlines (u ''+++ b/src/y.py'' @ NL @ u ''+c = 3'' @ NL @ u ''+++ b/'' @ NL
        @ u ''+a = 1'' @ NL @ u ''+b = 2'')
      = [u ''+++ b/src/y.py'', u ''+c = 3''] @ u ''+++ b/'' # [u ''+a = 1'', u ''+b = 2''] @ []"
    by (simp add: eval_defs)
  have h2: "\<forall>l\<in>set [u ''+a = 1'', u ''+b = 2'']. \<not> startswith l (u ''+++ b/'')"
    by (simp add: eval_defs)
  have p: "parse_lines (None, []) [u ''+++ b/src/y.py'', u ''+c = 3'']
      = (Some (u ''src/y.py''), [(u ''src/y.py'', u ''c = 3'')])"
    by (simp add: eval_defs)
  show ?thesis
    using empty_path_header_drops_added_lines [OF h1 h2] unfolding p
    by (simp add: parse_lines_Nil)
qed

lemma parse_step_plus3:
  assumes "startswith l (u ''+++'')"
  shows "snd (parse_step st l) = snd st"
  using assms by (cases st) (auto simp: parse_step_def Let_def split: option.splits)

lemma drop_plus_text:
  assumes "startswith l (u ''+'')" and "\<not> startswith l (u ''+++'')"
  shows "\<not> startswith (drop 1 l) (u ''++'')"
  using assms by (cases l) (auto simp: startswith_def u_def)

lemma parse_step_texts:
  assumes "\<forall>e\<in>set (snd st). \<not> startswith (snd e) (u ''++'')"
  shows "\<forall>e\<in>set (snd (parse_step st l)). \<not> startswith (snd e) (u ''++'')"
proof (cases st)
  case (Pair cf rs)
  then show ?thesis
    using assms drop_plus_text [of l]
    by (auto simp: parse_step_def Let_def split: option.splits)
qed

lemma parse_lines_texts:
  assumes "\<forall>e\<in>set (snd st). \<not> startswith (snd e) (u ''++'')"
  shows "\<forall>e\<in>set (snd (parse_lines st ls)). \<not> startswith (snd e) (u ''++'')"
  using assms
proof (induction ls arbitrary: st)
  case Nil
  then show ?case by (simp add: parse_lines_Nil)
next
  case (Cons l ls)
  show ?case
    unfolding parse_lines_Cons
    by (rule Cons.IH) (rule parse_step_texts [OF Cons.prems])
qed

text \<open>
  C8. A line that begins with \<open>+++\<close>, header or not, adds nothing to the results. An added
  code line whose text begins with \<open>++\<close> is such a line, so no entry of the parser's output
  has a text that begins with \<open>++\<close>.
\<close>

theorem triple_plus_line_never_emitted:
  "(startswith raw_line (u ''+++'') \<longrightarrow> snd (parse_step st raw_line) = snd st)
   \<and> (\<forall>e\<in>set (parse_added_lines diff). \<not> startswith (snd e) (u ''++''))"
proof -
  have "\<forall>e\<in>set (snd (parse_lines (None, []) (splitlines diff))). \<not> startswith (snd e) (u ''++'')"
    by (rule parse_lines_texts) simp
  then show ?thesis
    by (simp add: parse_step_plus3 parse_added_lines_def)
qed

theorem triple_plus_line_never_emitted_witness:
  "startswith (u ''+++i;'') (u ''+++'')
   \<and> snd (parse_step (Some (u ''a.c''), []) (u ''+++i;'')) = []
   \<and> parse_added_lines (u ''+++ b/a.c'' @ NL @ u ''+++i;'' @ NL @ u ''+x = 1'')
       = [(u ''a.c'', u ''x = 1'')]
   \<and> \<not> startswith (u ''x = 1'') (u ''++'')"
proof -
  have h: "startswith (u ''+++i;'') (u ''+++'')"
    by (simp add: eval_defs)
  have p: "parse_added_lines (u ''+++ b/a.c'' @ NL @ u ''+++i;'' @ NL @ u ''+x = 1'')
      = [(u ''a.c'', u ''x = 1'')]"
    by (simp add: parse_added_lines_def eval_defs)
  show ?thesis
    using triple_plus_line_never_emitted
      [of "u ''+++i;''" "(Some (u ''a.c''), [])"
          "u ''+++ b/a.c'' @ NL @ u ''+++i;'' @ NL @ u ''+x = 1''"] h
    unfolding p by simp
qed

section \<open>Properties of the size and file-count detectors\<close>

lemma check_file_size_filter:
  "check_file_size files m
     = map (\<lambda>f. file_size_issue (filename f) (get_changes f) m)
         (filter (\<lambda>f. get_changes f > m) files)"
  by (induction files) simp_all

lemma file_size_issue_head:
  "startswith (file_size_issue name n m)
     (u ''- '' @ WARN_ICON @ u '' `'' @ name @ u ''` has **'' @ str_int n)"
proof -
  have "file_size_issue name n m
      = (u ''- '' @ WARN_ICON @ u '' `'' @ name @ u ''` has **'' @ str_int n)
        @ (u ''** changed lines (threshold: '' @ str_int m
           @ u ''). Consider splitting this change.'')"
    by (simp add: file_size_issue_def)
  then show ?thesis
    by (simp only: startswith_append)
qed

lemma file_size_issue_threshold:
  "contains (file_size_issue name n m) (str_int m)"
proof -
  have "file_size_issue name n m
      = (u ''- '' @ WARN_ICON @ u '' `'' @ name @ u ''` has **'' @ str_int n
         @ u ''** changed lines (threshold: '')
        @ str_int m @ u ''). Consider splitting this change.''"
    by (simp add: file_size_issue_def)
  then show ?thesis
    by (simp only: contains_append)
qed

lemma file_size_issue_not_error:
  "\<not> startswith (file_size_issue name n m) (u ''- '' @ ERROR_ICON)"
  by (simp add: file_size_issue_def startswith_def u_def WARN_ICON_def ERROR_ICON_def)

lemma large_pr_issue_head:
  "startswith (large_pr_issue k m)
     (u ''- '' @ WARN_ICON @ u '' This PR modifies **'' @ str_int (int k))"
proof -
  have "large_pr_issue k m
      = (u ''- '' @ WARN_ICON @ u '' This PR modifies **'' @ str_int (int k))
        @ (u '' files** (recommended max: '' @ str_int m
           @ u ''). Large PRs are harder to review.'')"
    by (simp add: large_pr_issue_def)
  then show ?thesis
    by (simp only: startswith_append)
qed

lemma large_pr_issue_not_error:
  "\<not> startswith (large_pr_issue k m) (u ''- '' @ ERROR_ICON)"
  by (simp add: large_pr_issue_def startswith_def u_def WARN_ICON_def ERROR_ICON_def)

text \<open>
  C10. Neither detector looks at the excluded prefixes, on any file list. The size
  detector returns one finding for every file over the threshold, in the order of the list,
  so for an excluded file as well; the finding is a warning, it begins with the warning
  sign, the name of the file and its number of changed lines, and it holds the threshold.
  The file-count detector compares the length of the whole list with the limit: it warns
  exactly when the list is longer, also when the files that are not excluded would fit
  within the limit by themselves, and the warning gives the length of the whole list.
\<close>

theorem size_and_count_ignore_exclusion:
  "check_file_size files max_changed
       = map (\<lambda>f. file_size_issue (filename f) (get_changes f) max_changed)
           (filter (\<lambda>f. get_changes f > max_changed) files)
   \<and> (f \<in> set files \<and> is_excluded (filename f) \<and> get_changes f > max_changed
      \<longrightarrow> file_size_issue (filename f) (get_changes f) max_changed
            \<in> set (check_file_size files max_changed))
   \<and> startswith (file_size_issue name n max_changed)
         (u ''- '' @ WARN_ICON @ u '' `'' @ name @ u ''` has **'' @ str_int n)
   \<and> contains (file_size_issue name n max_changed) (str_int max_changed)
   \<and> \<not> startswith (file_size_issue name n max_changed) (u ''- '' @ ERROR_ICON)
   \<and> check_large_pr files max_files
       = (if int (length files) > max_files
          then [large_pr_issue (length files) max_files] else [])
   \<and> (int (length (filter (\<lambda>f. \<not> is_excluded (filename f)) files)) \<le> max_files
        \<and> int (length files) > max_files
      \<longrightarrow> check_large_pr files max_files = [large_pr_issue (length files) max_files])
   \<and> startswith (large_pr_issue k max_files)
         (u ''- '' @ WARN_ICON @ u '' This PR modifies **'' @ str_int (int k))
   \<and> \<not> startswith (large_pr_issue k max_files) (u ''- '' @ ERROR_ICON)"
proof -
  have size: "f \<in> set files \<and> is_excluded (filename f) \<and> get_changes f > max_changed
      \<longrightarrow> file_size_issue (filename f) (get_changes f) max_changed
            \<in> set (check_file_size files max_changed)"
    by (auto simp: check_file_size_filter)
  have count: "check_large_pr files max_files
       = (if int (length files) > max_files
          then [large_pr_issue (length files) max_files] else [])"
    by (simp add: check_large_pr_def)
  show ?thesis
    using size count
    by (simp add: check_file_size_filter file_size_issue_head file_size_issue_threshold
        file_size_issue_not_error large_pr_issue_head large_pr_issue_not_error)
qed

theorem size_and_count_ignore_exclusion_witness:
  "is_excluded (u ''robodev/a.py'') \<and> \<not> is_excluded (u ''src/b.py'')
   \<and> check_file_size
        [\<lparr>filename = u ''robodev/a.py'', status = u ''modified'', changes = Some 501\<rparr>,
         \<lparr>filename = u ''src/b.py'', status = u ''added'', changes = Some 2\<rparr>] 500
       = [file_size_issue (u ''robodev/a.py'') 501 500]
   \<and> file_size_issue (u ''robodev/a.py'') 501 500
       \<in> set (check_file_size
                [\<lparr>filename = u ''robodev/a.py'', status = u ''modified'', changes = Some 501\<rparr>,
                 \<lparr>filename = u ''src/b.py'', status = u ''added'', changes = Some 2\<rparr>] 500)
   \<and> startswith (file_size_issue (u ''robodev/a.py'') 501 500)
         (u ''- '' @ WARN_ICON @ u '' `'' @ u ''robodev/a.py'' @ u ''` has **'' @ str_int 501)
   \<and> check_large_pr
        [\<lparr>filename = u ''robodev/a.py'', status = u ''modified'', changes = Some 501\<rparr>,
         \<lparr>filename = u ''src/b.py'', status = u ''added'', changes = Some 2\<rparr>] 1
       = [large_pr_issue 2 1]"
proof -
  have h1: "is_excluded (u ''robodev/a.py'')" and h2: "\<not> is_excluded (u ''src/b.py'')"
    by (simp_all add: eval_defs)
  show ?thesis
    using size_and_count_ignore_exclusion
      [of "[\<lparr>filename = u ''robodev/a.py'', status = u ''modified'', changes = Some 501\<rparr>,
            \<lparr>filename = u ''src/b.py'', status = u ''added'', changes = Some 2\<rparr>]"
          500
          "\<lparr>filename = u ''robodev/a.py'', status = u ''modified'', changes = Some 501\<rparr>"
          "u ''robodev/a.py''" 501 1 2] h1 h2
    by (simp add: get_changes_def numeral_2_eq_2)
qed

section \<open>Properties of the test-coverage detector\<close>

lemmas coverage_defs = is_test_name_def has_source_suffix_def path_suffix_def path_name_def
  rfind_dot_def SOURCE_SUFFIXES_def is_changed_def lower_def lower_char_def

lemma coverage_step_eq:
  "coverage_step (s, t) f
     = (s \<or> (\<not> is_excluded (filename f) \<and> is_changed f
                \<and> \<not> is_test_name (filename f) \<and> has_source_suffix (filename f)),
        t \<or> (\<not> is_excluded (filename f) \<and> is_changed f \<and> is_test_name (filename f)))"
  by (simp add: coverage_step_def)

lemma foldl_coverage_step:
  "foldl coverage_step (s, t) files
     = (s \<or> (\<exists>f\<in>set files. \<not> is_excluded (filename f) \<and> is_changed f
                \<and> \<not> is_test_name (filename f) \<and> has_source_suffix (filename f)),
        t \<or> (\<exists>f\<in>set files. \<not> is_excluded (filename f) \<and> is_changed f
                \<and> is_test_name (filename f)))"
proof (induction files arbitrary: s t)
  case Nil
  then show ?case by simp
next
  case (Cons f fs)
  show ?case
    unfolding foldl_Cons coverage_step_eq Cons.IH by auto
qed

lemma no_tests_issue_is_warning:
  "startswith no_tests_issue (u ''- '' @ WARN_ICON)"
  by (simp add: no_tests_issue_def startswith_def u_def WARN_ICON_def)

text \<open>
  C5. With \<open>require_tests\<close> true the detector returns the one warning exactly when some
  file that is not excluded and is added or modified counts as a source file (its name is
  not a test name and its suffix is a source suffix) and no such file has a test name;
  otherwise it returns nothing. The name test comes first in the loop, so a file with a
  test name never sets \<open>src_changed\<close>.
\<close>

theorem test_coverage_warning_iff:
  "check_test_coverage files True
     = (if (\<exists>f\<in>set files. \<not> is_excluded (filename f) \<and> is_changed f
              \<and> \<not> is_test_name (filename f) \<and> has_source_suffix (filename f))
           \<and> \<not> (\<exists>f\<in>set files. \<not> is_excluded (filename f) \<and> is_changed f
              \<and> is_test_name (filename f))
        then [no_tests_issue] else [])
   \<and> startswith no_tests_issue (u ''- '' @ WARN_ICON)
   \<and> (is_test_name (filename f) \<longrightarrow> fst (coverage_step (False, t) f) = False)"
  by (simp add: check_test_coverage_def foldl_coverage_step no_tests_issue_is_warning
      coverage_step_eq)

theorem test_coverage_warning_iff_witness:
  "check_test_coverage
     [\<lparr>filename = u ''src/app.py'', status = u ''modified'', changes = Some 3\<rparr>] True
     = [no_tests_issue]
   \<and> check_test_coverage
     [\<lparr>filename = u ''src/app.py'', status = u ''modified'', changes = Some 3\<rparr>,
      \<lparr>filename = u ''tests/test_app.py'', status = u ''added'', changes = Some 9\<rparr>] True
     = []
   \<and> fst (coverage_step (False, False)
        \<lparr>filename = u ''tests/test_app.py'', status = u ''added'', changes = Some 9\<rparr>) = False"
proof -
  have a: "\<not> is_excluded (u ''src/app.py'')" "\<not> is_test_name (u ''src/app.py'')"
    "has_source_suffix (u ''src/app.py'')"
    by (simp_all add: eval_defs coverage_defs)
  have b: "\<not> is_excluded (u ''tests/test_app.py'')" "is_test_name (u ''tests/test_app.py'')"
    by (simp_all add: eval_defs coverage_defs)
  have c: "is_changed \<lparr>filename = x, status = u ''modified'', changes = y\<rparr>"
    "is_changed \<lparr>filename = x, status = u ''added'', changes = y\<rparr>" for x y
    by (simp_all add: is_changed_def)
  show ?thesis
    using test_coverage_warning_iff
        [of "[\<lparr>filename = u ''src/app.py'', status = u ''modified'', changes = Some 3\<rparr>]"
            "\<lparr>filename = u ''tests/test_app.py'', status = u ''added'', changes = Some 9\<rparr>" False]
      test_coverage_warning_iff
        [of "[\<lparr>filename = u ''src/app.py'', status = u ''modified'', changes = Some 3\<rparr>,
              \<lparr>filename = u ''tests/test_app.py'', status = u ''added'', changes = Some 9\<rparr>]"
            "\<lparr>filename = u ''tests/test_app.py'', status = u ''added'', changes = Some 9\<rparr>" False]
    by (simp add: a b c)
qed

section \<open>Where the excluded prefixes are applied\<close>

lemma parse_step_cursor_ok:
  assumes "cursor_ok st"
  shows "cursor_ok (parse_step st l)"
  using assms
  by (cases st) (auto simp: cursor_ok_def parse_step_def Let_def split: option.splits)

lemma parse_lines_cursor_ok:
  assumes "cursor_ok st"
  shows "cursor_ok (parse_lines st ls)"
  using assms
proof (induction ls arbitrary: st)
  case Nil
  then show ?case by (simp add: parse_lines_Nil)
next
  case (Cons l ls)
  show ?case
    unfolding parse_lines_Cons
    by (rule Cons.IH) (rule parse_step_cursor_ok [OF Cons.prems])
qed

lemma coverage_step_unfiltered_eq:
  "coverage_step_unfiltered (s, t) f
     = (s \<or> (is_changed f \<and> \<not> is_test_name (filename f) \<and> has_source_suffix (filename f)),
        t \<or> (is_changed f \<and> is_test_name (filename f)))"
  by (simp add: coverage_step_unfiltered_def)

lemma foldl_coverage_step_unfiltered:
  "foldl coverage_step_unfiltered (s, t) files
     = (s \<or> (\<exists>f\<in>set files. is_changed f
                \<and> \<not> is_test_name (filename f) \<and> has_source_suffix (filename f)),
        t \<or> (\<exists>f\<in>set files. is_changed f \<and> is_test_name (filename f)))"
proof (induction files arbitrary: s t)
  case Nil
  then show ?case by simp
next
  case (Cons f fs)
  show ?case
    unfolding foldl_Cons coverage_step_unfiltered_eq Cons.IH by auto
qed

lemma check_test_coverage_filter:
  "check_test_coverage files rt
     = check_test_coverage_unfiltered
         (filter (\<lambda>f. \<not> is_excluded (filename f)) files) rt"
  by (auto simp: check_test_coverage_def check_test_coverage_unfiltered_def
      foldl_coverage_step foldl_coverage_step_unfiltered)

text \<open>
  C3, as the spec states it, would make the test-coverage detector a function of the full
  file list with no exclusion test of its own, which is \<open>check_test_coverage_unfiltered\<close>.
  On a list with one modified source file under \<open>robodev/\<close> the two differ: the detector
  of the source skips the file and returns nothing.
\<close>

theorem test_coverage_reapplies_exclusion:
  "check_test_coverage
     [\<lparr>filename = u ''robodev/x.py'', status = u ''modified'', changes = Some 1\<rparr>] True
   \<noteq> check_test_coverage_unfiltered
     [\<lparr>filename = u ''robodev/x.py'', status = u ''modified'', changes = Some 1\<rparr>] True"
proof -
  have a: "is_excluded (u ''robodev/x.py'')" "\<not> is_test_name (u ''robodev/x.py'')"
    "has_source_suffix (u ''robodev/x.py'')"
    by (simp_all add: eval_defs coverage_defs)
  have l: "check_test_coverage
     [\<lparr>filename = u ''robodev/x.py'', status = u ''modified'', changes = Some 1\<rparr>] True = []"
    by (simp add: check_test_coverage_def coverage_step_eq a)
  have r: "check_test_coverage_unfiltered
     [\<lparr>filename = u ''robodev/x.py'', status = u ''modified'', changes = Some 1\<rparr>] True
     = [no_tests_issue]"
    by (simp add: check_test_coverage_unfiltered_def coverage_step_unfiltered_eq a is_changed_def)
  show ?thesis
    unfolding l r by simp
qed

text \<open>
  C3, amended. The excluded prefixes are applied in two places. The parser applies them to
  the diff: no entry of its output has an excluded path, and the banned-pattern detector
  reads the diff through the parser only. The test-coverage detector, which reads the file
  list, applies the same test to every file: it is the detector without exclusion test run
  on the files that are not excluded.
\<close>

theorem exclusion_at_parse_and_in_test_coverage:
  "(\<forall>e\<in>set (parse_added_lines diff). \<not> is_excluded (fst e))
   \<and> (parse_added_lines diff = parse_added_lines diff'
        \<longrightarrow> check_banned_patterns re diff patterns = check_banned_patterns re diff' patterns)
   \<and> check_test_coverage files rt
       = check_test_coverage_unfiltered
           (filter (\<lambda>f. \<not> is_excluded (filename f)) files) rt"
proof -
  have "cursor_ok (parse_lines (None, []) (splitlines diff))"
    by (rule parse_lines_cursor_ok) (simp add: cursor_ok_def)
  then have "\<forall>e\<in>set (parse_added_lines diff). \<not> is_excluded (fst e)"
    by (simp add: cursor_ok_def parse_added_lines_def)
  then show ?thesis
    by (simp add: check_banned_patterns_def check_test_coverage_filter)
qed

theorem exclusion_at_parse_and_in_test_coverage_witness:
  "parse_added_lines (u ''+++ b/robodev/x.py'' @ NL @ u ''+a = 1'' @ NL
        @ u ''+++ b/src/y.py'' @ NL @ u ''+c = 3'')
     = [(u ''src/y.py'', u ''c = 3'')]
   \<and> \<not> is_excluded (u ''src/y.py'')
   \<and> check_banned_patterns literal_engine
        (u ''+++ b/robodev/x.py'' @ NL @ u ''+a = 1'' @ NL @ u ''+++ b/src/y.py'' @ NL @ u ''+c = 3'') []
     = check_banned_patterns literal_engine (u ''+++ b/src/y.py'' @ NL @ u ''+c = 3'') []
   \<and> check_test_coverage
        [\<lparr>filename = u ''robodev/x.py'', status = u ''modified'', changes = Some 1\<rparr>,
         \<lparr>filename = u ''src/y.py'', status = u ''modified'', changes = Some 1\<rparr>] True
     = check_test_coverage_unfiltered
        [\<lparr>filename = u ''src/y.py'', status = u ''modified'', changes = Some 1\<rparr>] True"
proof -
  have p: "parse_added_lines (u ''+++ b/robodev/x.py'' @ NL @ u ''+a = 1'' @ NL
        @ u ''+++ b/src/y.py'' @ NL @ u ''+c = 3'')
     = [(u ''src/y.py'', u ''c = 3'')]"
    by (simp add: parse_added_lines_def eval_defs)
  have q: "parse_added_lines (u ''+++ b/src/y.py'' @ NL @ u ''+c = 3'')
     = [(u ''src/y.py'', u ''c = 3'')]"
    by (simp add: parse_added_lines_def eval_defs)
  have e: "is_excluded (u ''robodev/x.py'')" "\<not> is_excluded (u ''src/y.py'')"
    by (simp_all add: eval_defs)
  show ?thesis
    using exclusion_at_parse_and_in_test_coverage
      [of "u ''+++ b/robodev/x.py'' @ NL @ u ''+a = 1'' @ NL @ u ''+++ b/src/y.py'' @ NL @ u ''+c = 3''"
          "u ''+++ b/src/y.py'' @ NL @ u ''+c = 3''" literal_engine "[]"
          "[\<lparr>filename = u ''robodev/x.py'', status = u ''modified'', changes = Some 1\<rparr>,
            \<lparr>filename = u ''src/y.py'', status = u ''modified'', changes = Some 1\<rparr>]" True]
    unfolding p q by (simp add: e)
qed

section \<open>Properties of the banned-pattern detector\<close>

lemmas engine_defs = literal_engine_def META_def EVAL_REGEX_def eval_entry_def
  get_regex_def get_label_def get_severity_def icon_of_def

lemma scan_patterns_ok:
  assumes "\<forall>e\<in>set ps. re (get_regex e) = Some (ms e)"
  shows "scan_patterns re t ps acc
     = Inr (acc @ concat (map (\<lambda>e. map (banned_issue e) (ms e t)) ps))"
  using assms by (induction ps arbitrary: acc) simp_all

lemma scan_patterns_bad:
  assumes "\<forall>e\<in>set ps. re (get_regex e) \<noteq> None" and "re (get_regex bad) = None"
  shows "scan_patterns re t (ps @ bad # qs) acc = Inl (ReError (get_regex bad))"
  using assms by (induction ps arbitrary: acc) auto

lemma banned_issue_error_icon:
  "startswith (banned_issue e m) (u ''- '' @ ERROR_ICON) \<longleftrightarrow> get_severity e = u ''error''"
  by (simp add: banned_issue_def icon_of_def startswith_def u_def ERROR_ICON_def WARN_ICON_def)

lemma banned_issue_warn_icon:
  "startswith (banned_issue e m) (u ''- '' @ WARN_ICON) \<longleftrightarrow> get_severity e \<noteq> u ''error''"
  by (simp add: banned_issue_def icon_of_def startswith_def u_def ERROR_ICON_def WARN_ICON_def)

lemma banned_issue_contains_match: "contains (banned_issue e m) (take 80 m)"
proof -
  have "banned_issue e m
      = (u ''- '' @ icon_of e @ u '' **'' @ get_label e @ u ''** detected in diff near: `'')
        @ take 80 m @ u ''`''"
    by (simp add: banned_issue_def)
  then show ?thesis
    by (simp only: contains_append)
qed

lemma check_banned_patterns_ok:
  assumes "\<forall>e\<in>set patterns. re (get_regex e) = Some (ms e)"
  shows "check_banned_patterns re diff patterns
     = Inr (if parse_added_lines diff = [] then []
            else concat (map (\<lambda>e. map (banned_issue e)
                   (ms e (join NL (map snd (parse_added_lines diff))))) patterns))"
  by (simp add: check_banned_patterns_def Let_def scan_patterns_ok [OF assms])

lemma parse_eval_diff:
  "parse_added_lines (u ''+++ b/app.js'' @ NL @ u ''+eval(userInput)'')
     = [(u ''app.js'', u ''eval(userInput)'')]"
  by (simp add: parse_added_lines_def eval_defs)

lemma literal_engine_eval: "literal_engine EVAL_REGEX = Some (find_all (u ''eval(''))"
  by (simp add: engine_defs u_def)

lemma literal_engine_paren: "literal_engine (u ''('') = None"
  by (simp add: engine_defs u_def)

lemma find_all_eval: "find_all (u ''eval('') (u ''eval(userInput)'') = [u ''eval('']"
  by (simp add: find_all.simps u_def startswith_def)

text \<open>
  C2, as the spec states it, fails: with one added line, a pattern whose regex is the lone
  \<open>(\<close>, which does not compile, makes the detector raise, and the finding of the pattern
  after it is lost; without the bad pattern that finding is returned.
\<close>

theorem invalid_regex_raises:
  "literal_engine (u ''('') = None
   \<and> check_banned_patterns literal_engine (u ''+++ b/app.js'' @ NL @ u ''+eval(userInput)'')
        [\<lparr>regex = Some (u ''(''), label = None, severity = None\<rparr>, eval_entry]
       = Inl (ReError (u ''(''))
   \<and> check_banned_patterns literal_engine (u ''+++ b/app.js'' @ NL @ u ''+eval(userInput)'')
        [eval_entry]
       = Inr [banned_issue eval_entry (u ''eval('')]"
proof -
  have e: "get_regex eval_entry = EVAL_REGEX"
    and b: "get_regex \<lparr>regex = Some (u ''(''), label = None, severity = None\<rparr> = u ''(''"
    by (simp_all add: engine_defs)
  show ?thesis
    by (simp add: check_banned_patterns_def parse_eval_diff literal_engine_paren e b
        literal_engine_eval find_all_eval)
qed

text \<open>
  C2, amended. The detector has no handler for \<open>re.error\<close>. It does not raise when every
  pattern compiles, nor when the diff has no added line outside the excluded files, in which
  case it returns nothing before any pattern is looked at. When there is an added line, the
  first pattern that does not compile makes it raise, and no finding is returned.
\<close>

theorem banned_patterns_raise_on_invalid_regex:
  "((\<forall>e\<in>set patterns. re (get_regex e) \<noteq> None)
      \<longrightarrow> (\<exists>issues. check_banned_patterns re diff patterns = Inr issues))
   \<and> (parse_added_lines diff = [] \<longrightarrow> check_banned_patterns re diff patterns = Inr [])
   \<and> (parse_added_lines diff \<noteq> [] \<and> (\<forall>e\<in>set ps. re (get_regex e) \<noteq> None)
        \<and> re (get_regex bad) = None
      \<longrightarrow> check_banned_patterns re diff (ps @ bad # qs) = Inl (ReError (get_regex bad)))"
proof -
  have "\<exists>issues. check_banned_patterns re diff patterns = Inr issues"
    if "\<forall>e\<in>set patterns. re (get_regex e) \<noteq> None"
  proof -
    from that have "\<forall>e\<in>set patterns. re (get_regex e) = Some (the (re (get_regex e)))"
      by simp
    from check_banned_patterns_ok [of patterns re "\<lambda>e. the (re (get_regex e))", OF this]
    show ?thesis by blast
  qed
  then show ?thesis
    by (simp add: check_banned_patterns_def scan_patterns_bad)
qed

theorem banned_patterns_raise_on_invalid_regex_witness:
  "(\<exists>issues. check_banned_patterns literal_engine
        (u ''+++ b/app.js'' @ NL @ u ''+eval(userInput)'') [eval_entry] = Inr issues)
   \<and> check_banned_patterns literal_engine (u ''+++ b/robodev/x.py'' @ NL @ u ''+eval(userInput)'')
        [\<lparr>regex = Some (u ''(''), label = None, severity = None\<rparr>] = Inr []
   \<and> check_banned_patterns literal_engine (u ''+++ b/app.js'' @ NL @ u ''+eval(userInput)'')
        ([eval_entry] @ \<lparr>regex = Some (u ''(''), label = None, severity = None\<rparr> # [eval_entry])
       = Inl (ReError (u ''(''))"
proof -
  have e: "get_regex eval_entry = EVAL_REGEX"
    and b: "get_regex \<lparr>regex = Some (u ''(''), label = None, severity = None\<rparr> = u ''(''"
    by (simp_all add: engine_defs)
  have x: "parse_added_lines (u ''+++ b/robodev/x.py'' @ NL @ u ''+eval(userInput)'') = []"
    by (simp add: parse_added_lines_def eval_defs)
  show ?thesis
    using banned_patterns_raise_on_invalid_regex
        [of "[eval_entry]" literal_engine "u ''+++ b/app.js'' @ NL @ u ''+eval(userInput)''"
            "[eval_entry]" "\<lparr>regex = Some (u ''(''), label = None, severity = None\<rparr>"
            "[eval_entry]"]
      banned_patterns_raise_on_invalid_regex
        [of "[\<lparr>regex = Some (u ''(''), label = None, severity = None\<rparr>]" literal_engine
            "u ''+++ b/robodev/x.py'' @ NL @ u ''+eval(userInput)''" "[]" eval_entry "[]"]
    by (simp add: e b x parse_eval_diff literal_engine_eval literal_engine_paren)
qed

text \<open>
  C6, as the spec states it, fails on a diff without added lines: the joined buffer is then
  the empty string, which the empty regex matches once, and the detector returns nothing.
\<close>

theorem no_added_lines_no_findings:
  "literal_engine [] = Some (find_all [])
   \<and> find_all [] (join NL (map snd (parse_added_lines []))) = [[]]
   \<and> check_banned_patterns literal_engine []
        [\<lparr>regex = Some [], label = Some (u ''empty''), severity = Some (u ''warning'')\<rparr>]
       = Inr []"
proof -
  have p: "parse_added_lines [] = []"
    by (simp add: parse_added_lines_def eval_defs)
  show ?thesis
    by (simp add: p check_banned_patterns_def literal_engine_def find_all.simps)
qed

text \<open>
  C6, amended. When every pattern compiles and the diff has an added line outside the
  excluded files, the detector returns, pattern after pattern, one finding for each match
  of the pattern on the added texts joined with newlines; when the diff has no such line it
  returns nothing. A finding begins with the cross mark exactly when the severity of its
  pattern is \<open>error\<close> and with the warning sign otherwise, and it holds the first 80
  characters of the match. For a diff whose one added line is \<open>eval(userInput)\<close> and the
  pattern \<open>eval\(\<close> with severity \<open>error\<close>, which matches that line once, the detector
  returns one finding, with the cross mark.
\<close>

theorem banned_patterns_one_finding_per_match:
  assumes "\<forall>e\<in>set patterns. re (get_regex e) = Some (ms e)"
  shows "check_banned_patterns re diff patterns
       = Inr (if parse_added_lines diff = [] then []
              else concat (map (\<lambda>e. map (banned_issue e)
                     (ms e (join NL (map snd (parse_added_lines diff))))) patterns))
     \<and> (startswith (banned_issue e m) (u ''- '' @ ERROR_ICON) \<longleftrightarrow> get_severity e = u ''error'')
     \<and> (startswith (banned_issue e m) (u ''- '' @ WARN_ICON) \<longleftrightarrow> get_severity e \<noteq> u ''error'')
     \<and> contains (banned_issue e m) (take 80 m)
     \<and> (parse_added_lines d = [(f, u ''eval(userInput)'')] \<and> re EVAL_REGEX = Some m0
          \<and> m0 (u ''eval(userInput)'') = [u ''eval('']
        \<longrightarrow> check_banned_patterns re d [eval_entry] = Inr [banned_issue eval_entry (u ''eval('')]
            \<and> startswith (banned_issue eval_entry (u ''eval('')) (u ''- '' @ ERROR_ICON))"
proof -
  have e: "get_regex eval_entry = EVAL_REGEX" "get_severity eval_entry = u ''error''"
    by (simp_all add: engine_defs)
  have "check_banned_patterns re d [eval_entry] = Inr [banned_issue eval_entry (u ''eval('')]"
    if "parse_added_lines d = [(f, u ''eval(userInput)'')]" "re EVAL_REGEX = Some m0"
      "m0 (u ''eval(userInput)'') = [u ''eval('']"
    using that by (simp add: check_banned_patterns_def e(1))
  then show ?thesis
    using check_banned_patterns_ok [OF assms, of diff]
    by (simp add: banned_issue_error_icon banned_issue_warn_icon banned_issue_contains_match e(2))
qed

theorem banned_patterns_one_finding_per_match_witness:
  "check_banned_patterns literal_engine (u ''+++ b/app.js'' @ NL @ u ''+eval(userInput)'')
       [eval_entry, eval_entry]
     = Inr [banned_issue eval_entry (u ''eval(''), banned_issue eval_entry (u ''eval('')]
   \<and> startswith (banned_issue eval_entry (u ''eval('')) (u ''- '' @ ERROR_ICON)
   \<and> check_banned_patterns literal_engine (u ''+++ b/app.js'' @ NL @ u ''+eval(userInput)'')
       [eval_entry]
     = Inr [banned_issue eval_entry (u ''eval('')]"
proof -
  have e: "get_regex eval_entry = EVAL_REGEX" "get_severity eval_entry = u ''error''"
    by (simp_all add: engine_defs)
  have h: "\<forall>e\<in>set [eval_entry, eval_entry].
      literal_engine (get_regex e) = Some (find_all (u ''eval(''))"
    by (simp add: e literal_engine_eval)
  show ?thesis
    using banned_patterns_one_finding_per_match
      [of "[eval_entry, eval_entry]" literal_engine "\<lambda>e. find_all (u ''eval('')"
          "u ''+++ b/app.js'' @ NL @ u ''+eval(userInput)''" eval_entry "u ''eval(''"
          "u ''+++ b/app.js'' @ NL @ u ''+eval(userInput)''" "u ''app.js''"
          "find_all (u ''eval('')", OF h]
    by (simp add: parse_eval_diff literal_engine_eval find_all_eval e)
qed

section \<open>Properties of the verdict\<close>

lemma error_issue_has_errors:
  assumes "get_severity entry = u ''error''" and "banned_issue entry m \<in> set issues"
  shows "has_errors issues"
proof -
  have "banned_issue entry m = u ''- '' @ ERROR_ICON
      @ (u '' **'' @ get_label entry @ u ''** detected in diff near: `'' @ take 80 m @ u ''`'')"
    using assms(1) by (simp add: banned_issue_def icon_of_def)
  then have "contains (banned_issue entry m) ERROR_ICON"
    by (simp only: contains_append)
  then show ?thesis
    using assms(2) by (auto simp: has_errors_def list_ex_iff)
qed

text \<open>
  C4. The value that \<open>run\<close> returns, the exit code of the process, is 1 when the event is
  \<open>REQUEST_CHANGES\<close> and 0 when it is not. A finding that the banned-pattern detector made
  for a pattern of severity \<open>error\<close> forces the event \<open>REQUEST_CHANGES\<close> and the exit code
  1, whatever else the list of issues holds.
\<close>

theorem exit_code_follows_outcome:
  "exit_code (verdict issues ai) = (if review_event (verdict issues ai) = REQUEST_CHANGES then 1 else 0)
   \<and> (run re c files diff ai = Inr r
        \<longrightarrow> exit_code r = (if review_event r = REQUEST_CHANGES then 1 else 0))
   \<and> (get_severity entry = u ''error'' \<and> banned_issue entry m \<in> set issues
        \<longrightarrow> review_event (verdict issues ai) = REQUEST_CHANGES
            \<and> exit_code (verdict issues ai) = 1)
   \<and> (get_severity entry = u ''error'' \<and> rule_issues re c files diff = Inr issues
        \<and> banned_issue entry m \<in> set issues \<and> run re c files diff ai = Inr r
        \<longrightarrow> review_event r = REQUEST_CHANGES \<and> exit_code r = 1)"
proof -
  have a: "exit_code (verdict xs ai) = (if review_event (verdict xs ai) = REQUEST_CHANGES then 1 else 0)"
    for xs
    by (simp add: verdict_def)
  have b: "review_event (verdict issues ai) = REQUEST_CHANGES \<and> exit_code (verdict issues ai) = 1"
    if "get_severity entry = u ''error''" "banned_issue entry m \<in> set issues"
    using error_issue_has_errors [OF that] by (simp add: verdict_def)
  show ?thesis
    using a b by (auto simp: run_def split: sum.splits)
qed

lemmas cfg_defs = get_max_changed_def get_max_files_def get_banned_def get_require_tests_def

lemma eval_rule_issues:
  "rule_issues literal_engine eval_cfg eval_files eval_diff
     = Inr [file_size_issue (u ''src/app.py'') 501 500,
            banned_issue eval_entry (u ''eval(''),
            no_tests_issue]"
proof -
  have e: "get_regex eval_entry = EVAL_REGEX"
    by (simp add: engine_defs)
  have b: "check_banned_patterns literal_engine eval_diff [eval_entry]
      = Inr [banned_issue eval_entry (u ''eval('')]"
    by (simp add: check_banned_patterns_def eval_diff_def parse_eval_diff e
        literal_engine_eval find_all_eval)
  have a: "\<not> is_excluded (u ''src/app.py'')" "\<not> is_test_name (u ''src/app.py'')"
    "has_source_suffix (u ''src/app.py'')"
    by (simp_all add: eval_defs coverage_defs)
  have t: "check_test_coverage eval_files True = [no_tests_issue]"
    by (simp add: eval_files_def check_test_coverage_def coverage_step_eq a is_changed_def)
  have s: "check_file_size eval_files 500 = [file_size_issue (u ''src/app.py'') 501 500]"
    by (simp add: eval_files_def get_changes_def)
  have l: "check_large_pr eval_files 20 = []"
    by (simp add: eval_files_def check_large_pr_def)
  have c: "get_max_changed eval_cfg = 500" "get_max_files eval_cfg = 20"
    "get_banned eval_cfg = [eval_entry]" "get_require_tests eval_cfg = True"
    by (simp_all add: cfg_defs eval_cfg_def)
  show ?thesis
    by (simp add: rule_issues_def c b t s l)
qed

theorem exit_code_follows_outcome_witness:
  "get_severity eval_entry = u ''error''
   \<and> run literal_engine eval_cfg eval_files eval_diff None
       = Inr (verdict [file_size_issue (u ''src/app.py'') 501 500,
                       banned_issue eval_entry (u ''eval(''),
                       no_tests_issue] None)
   \<and> review_event (verdict [file_size_issue (u ''src/app.py'') 501 500,
                            banned_issue eval_entry (u ''eval(''),
                            no_tests_issue] None) = REQUEST_CHANGES
   \<and> exit_code (verdict [file_size_issue (u ''src/app.py'') 501 500,
                         banned_issue eval_entry (u ''eval(''),
                         no_tests_issue] None) = 1"
proof -
  have s: "get_severity eval_entry = u ''error''"
    by (simp add: engine_defs)
  have r: "run literal_engine eval_cfg eval_files eval_diff None
       = Inr (verdict [file_size_issue (u ''src/app.py'') 501 500,
                       banned_issue eval_entry (u ''eval(''),
                       no_tests_issue] None)"
    by (simp add: run_def eval_rule_issues)
  show ?thesis
    using exit_code_follows_outcome
      [of "[file_size_issue (u ''src/app.py'') 501 500, banned_issue eval_entry (u ''eval(''),
            no_tests_issue]" None literal_engine eval_cfg eval_files eval_diff
          "verdict [file_size_issue (u ''src/app.py'') 501 500,
                    banned_issue eval_entry (u ''eval(''), no_tests_issue] None"
          eval_entry "u ''eval(''"]
      s r eval_rule_issues
    by simp
qed

text \<open>
  C1. The verdict looks for the cross mark anywhere in an issue, not for the icon that the
  detector put at its head. In the second example the only finding is a warning: its
  pattern has the severity \<open>warning\<close> and it begins with the warning sign. The text that
  the pattern matched holds a cross mark, the finding quotes it, and the event is
  \<open>REQUEST_CHANGES\<close> with the exit code 1.
\<close>

theorem warning_finding_requests_changes:
  "get_severity emoji_entry = u ''warning''
   \<and> rule_issues literal_engine emoji_cfg [] emoji_diff
       = Inr [banned_issue emoji_entry ERROR_ICON]
   \<and> startswith (banned_issue emoji_entry ERROR_ICON) (u ''- '' @ WARN_ICON)
   \<and> \<not> startswith (banned_issue emoji_entry ERROR_ICON) (u ''- '' @ ERROR_ICON)
   \<and> run literal_engine emoji_cfg [] emoji_diff None
       = Inr (verdict [banned_issue emoji_entry ERROR_ICON] None)
   \<and> review_event (verdict [banned_issue emoji_entry ERROR_ICON] None) = REQUEST_CHANGES
   \<and> exit_code (verdict [banned_issue emoji_entry ERROR_ICON] None) = 1"
proof -
  have s: "get_severity emoji_entry = u ''warning''" and g: "get_regex emoji_entry = ERROR_ICON"
    by (simp_all add: emoji_entry_def get_severity_def get_regex_def)
  have ne: "u ''warning'' \<noteq> u ''error''"
    by (simp add: u_def)
  have p: "parse_added_lines emoji_diff = [(u ''app.py'', u ''status = '' @ ERROR_ICON)]"
    by (simp add: parse_added_lines_def emoji_diff_def ERROR_ICON_def eval_defs)
  have l: "literal_engine ERROR_ICON = Some (find_all ERROR_ICON)"
    by (simp add: literal_engine_def META_def ERROR_ICON_def)
  have f: "find_all ERROR_ICON (u ''status = '' @ ERROR_ICON) = [ERROR_ICON]"
    by (simp add: find_all.simps u_def startswith_def ERROR_ICON_def)
  have b: "check_banned_patterns literal_engine emoji_diff [emoji_entry]
      = Inr [banned_issue emoji_entry ERROR_ICON]"
    by (simp add: check_banned_patterns_def p g l f)
  have c: "get_max_changed emoji_cfg = 500" "get_max_files emoji_cfg = 20"
    "get_banned emoji_cfg = [emoji_entry]" "get_require_tests emoji_cfg = True"
    by (simp_all add: cfg_defs emoji_cfg_def)
  have i: "rule_issues literal_engine emoji_cfg [] emoji_diff
      = Inr [banned_issue emoji_entry ERROR_ICON]"
    by (simp add: rule_issues_def c b check_large_pr_def check_test_coverage_def)
  have "contains (banned_issue emoji_entry ERROR_ICON) (take 80 ERROR_ICON)"
    by (rule banned_issue_contains_match)
  then have h: "has_errors [banned_issue emoji_entry ERROR_ICON]"
    by (simp add: has_errors_def ERROR_ICON_def)
  show ?thesis
    using h by (simp add: s i run_def verdict_def banned_issue_warn_icon banned_issue_error_icon ne)
qed

end
